theory Spec2Isabelle
  imports Main "HOL-Library.Word"
begin

unbundle bit_operations_syntax

section \<open>FNET transport facade (fnet/src/vespa/fnet/transport.cpp)\<close>

text \<open>
  The facade \<open>FNET_Transport\<close> owns a list of worker threads and a shared resolver.
  Everything it does beyond computing is a call on a collaborator (a worker thread, the
  resolver, the clock). The model records these calls, in order, in a history, and takes
  what the collaborators answer from an environment that may answer differently after
  every history.
\<close>

subsection \<open>Data\<close>

type_synonym byte = "8 word"
type_synonym u32 = "32 word"
type_synonym u64 = "64 word"

text \<open>
  A \<open>const char *\<close> or \<open>const void *\<close> argument is modelled by what can be read through
  it: \<open>nullptr\<close>, or the bytes of the buffer it points to, up to the end of that buffer.
\<close>

datatype cptr = nullptr | Ptr "byte list"

text \<open>Pointers the facade only passes on (streamers, adapters, contexts, the thread
  pool, results of the workers) are opaque; \<open>None\<close> is the null pointer.\<close>

type_synonym objptr = "nat option"

text \<open>A worker (\<open>FNET_TransportThread *\<close>) and the resolver are named by their address.\<close>

type_synonym thread_ptr = nat
type_synonym resolver_ptr = nat

text \<open>\<open>FNET_IOComponent\<close>: the facade reads only its \<open>Owner()\<close> back-reference.\<close>

record FNET_IOComponent =
  ioc_addr :: nat
  Owner :: thread_ptr

text \<open>The calls the facade makes on its collaborators.\<close>

datatype call =
    Clock_now
  | New_TransportThread
  | Resolver_wait_for_pending_resolves resolver_ptr
  | T_Listen thread_ptr cptr objptr objptr
  | T_Connect thread_ptr cptr objptr objptr objptr objptr objptr
  | T_GetNumIOComponents thread_ptr
  | T_GetScheduler thread_ptr
  | T_execute thread_ptr objptr
  | T_ShutDown thread_ptr bool
  | T_WaitFinished thread_ptr
  | T_Start thread_ptr objptr
  | T_Add thread_ptr FNET_IOComponent bool
  | T_EnableRead thread_ptr FNET_IOComponent bool
  | T_DisableRead thread_ptr FNET_IOComponent bool
  | T_EnableWrite thread_ptr FNET_IOComponent bool
  | T_DisableWrite thread_ptr FNET_IOComponent bool
  | T_Close thread_ptr FNET_IOComponent bool
  | T_GetTimeSampler thread_ptr
  | T_InitEventLoop thread_ptr
  | T_EventLoopIteration thread_ptr
  | T_Main thread_ptr

type_synonym history = "call list"

text \<open>
  The environment. \<open>XXH64\<close> (vespalib/xxhash, not part of this file) is a function of the
  bytes and the seed. \<open>stack_addr\<close> is the address at which \<open>select_thread\<close> finds its
  local \<open>hash_state\<close>. The other fields are the collaborators' answers to a call, given
  the calls made before it.
\<close>

record env =
  XXH64 :: "byte list \<Rightarrow> u64 \<Rightarrow> u64"
  stack_addr :: "history \<Rightarrow> u64"
  ret_u64 :: "history \<Rightarrow> call \<Rightarrow> u64"
  ret_u32 :: "history \<Rightarrow> call \<Rightarrow> u32"
  ret_bool :: "history \<Rightarrow> call \<Rightarrow> bool"
  ret_ptr :: "history \<Rightarrow> call \<Rightarrow> objptr"
  ret_thread :: "history \<Rightarrow> call \<Rightarrow> thread_ptr"

text \<open>What stops the program: a failed \<open>assert\<close>, a read through a pointer that does
  not cover it, a remainder by zero.\<close>

datatype fault = AssertionFailed | InvalidRead | DivisionByZero

record FNET_Transport =
  async_resolver :: resolver_ptr
  threads :: "thread_ptr list"

subsection \<open>Reading memory\<close>

text \<open>The \<open>n\<close> bytes at a pointer. Reading nothing is possible through any pointer.\<close>

fun read_bytes :: "cptr \<Rightarrow> nat \<Rightarrow> byte list option" where
  "read_bytes nullptr n = (if n = 0 then Some [] else None)"
| "read_bytes (Ptr bs) n = (if n \<le> length bs then Some (take n bs) else None)"

text \<open>\<open>strlen\<close>: the number of bytes before the first NUL; none in the buffer, or a
  null pointer, and the read runs off the buffer.\<close>

fun strlen :: "cptr \<Rightarrow> nat option" where
  "strlen nullptr = None"
| "strlen (Ptr bs) = (if 0 \<in> set bs then Some (length (takeWhile (\<lambda>b. b \<noteq> 0) bs)) else None)"

subsection \<open>HashState and select_thread\<close>

record HashState =
  self :: u64
  now :: u64
  key_hash :: u64

text \<open>The 8 bytes of a 64-bit value, least significant first.\<close>

definition le64_bytes :: "u64 \<Rightarrow> byte list" where
  "le64_bytes w = map (\<lambda>i. ucast (drop_bit (8 * i) w)) [0 ..< 8]"

text \<open>
  The object representation \<open>XXH64(&hash_state, sizeof(hash_state), 0)\<close> reads: the three
  members in declaration order, each 8 bytes (a pointer, the clock's 64-bit tick count,
  a \<open>uint64_t\<close>), on a little-endian LP64 target; \<open>sizeof(hash_state)\<close> is 24.
\<close>

definition object_bytes :: "HashState \<Rightarrow> byte list" where
  "object_bytes s = le64_bytes (self s) @ le64_bytes (now s) @ le64_bytes (key_hash s)"

text \<open>The constructor: members are initialised in declaration order, so the clock is
  read before the key is hashed.\<close>

definition HashState_ctor ::
  "env \<Rightarrow> cptr \<Rightarrow> nat \<Rightarrow> history \<Rightarrow> (fault + HashState) \<times> history" where
  "HashState_ctor E key key_len h =
     (let this = stack_addr E h;
          t = ret_u64 E h Clock_now;
          h1 = h @ [Clock_now]
      in case read_bytes key key_len of
           None \<Rightarrow> (Inl InvalidRead, h1)
         | Some bs \<Rightarrow> (Inr \<lparr>self = this, now = t, key_hash = XXH64 E bs 0\<rparr>, h1))"

text \<open>\<open>size_t\<close> has 64 bits here, so \<open>hash_value\<close> is the whole hash; the remainder by
  an empty \<open>_threads\<close> is a division by zero.\<close>

definition select_thread ::
  "env \<Rightarrow> FNET_Transport \<Rightarrow> cptr \<Rightarrow> nat \<Rightarrow> history \<Rightarrow> (fault + thread_ptr) \<times> history" where
  "select_thread E T key key_len h =
     (case HashState_ctor E key key_len h of
        (Inl f, h1) \<Rightarrow> (Inl f, h1)
      | (Inr hash_state, h1) \<Rightarrow>
          (let hash_value = XXH64 E (object_bytes hash_state) 0 in
           if length (threads T) = 0 then (Inl DivisionByZero, h1)
           else (let thread_id = unat hash_value mod length (threads T)
                 in (Inr (threads T ! thread_id), h1))))"

subsection \<open>Construction and destruction\<close>

text \<open>The constructor's loop \<open>for (size_t i = 0; i < num_threads; ++i)\<close>; each round
  creates a worker and appends it to \<open>_threads\<close>.\<close>

function ctor_loop ::
  "env \<Rightarrow> nat \<Rightarrow> nat \<Rightarrow> thread_ptr list \<Rightarrow> history \<Rightarrow> thread_ptr list \<times> history" where
  "ctor_loop E i num_threads ts h =
     (if i < num_threads
      then ctor_loop E (i + 1) num_threads
             (ts @ [ret_thread E h New_TransportThread]) (h @ [New_TransportThread])
      else (ts, h))"
  by pat_completeness auto
termination
  by (relation "measure (\<lambda>(E, i, num_threads, ts, h). num_threads - i)") auto

declare ctor_loop.simps [simp del]

definition FNET_Transport_ctor ::
  "env \<Rightarrow> resolver_ptr \<Rightarrow> nat \<Rightarrow> history \<Rightarrow> (fault + FNET_Transport) \<times> history" where
  "FNET_Transport_ctor E resolver num_threads h =
     (if \<not> (num_threads \<ge> 1) then (Inl AssertionFailed, h)
      else (case ctor_loop E 0 num_threads [] h of
              (ts, h1) \<Rightarrow> (Inr \<lparr>async_resolver = resolver, threads = ts\<rparr>, h1)))"

text \<open>The destructor's body. (The members are released after it.)\<close>

definition FNET_Transport_dtor :: "FNET_Transport \<Rightarrow> history \<Rightarrow> history" where
  "FNET_Transport_dtor T h = h @ [Resolver_wait_for_pending_resolves (async_resolver T)]"

subsection \<open>Endpoint operations\<close>

definition Listen ::
  "env \<Rightarrow> FNET_Transport \<Rightarrow> cptr \<Rightarrow> objptr \<Rightarrow> objptr \<Rightarrow> history \<Rightarrow> (fault + objptr) \<times> history" where
  "Listen E T spec streamer serverAdapter h =
     (case strlen spec of
        None \<Rightarrow> (Inl InvalidRead, h)
      | Some n \<Rightarrow>
          (case select_thread E T spec n h of
             (Inl f, h1) \<Rightarrow> (Inl f, h1)
           | (Inr t, h1) \<Rightarrow>
               (Inr (ret_ptr E h1 (T_Listen t spec streamer serverAdapter)),
                h1 @ [T_Listen t spec streamer serverAdapter])))"

definition Connect ::
  "env \<Rightarrow> FNET_Transport \<Rightarrow> cptr \<Rightarrow> objptr \<Rightarrow> objptr \<Rightarrow> objptr \<Rightarrow> objptr \<Rightarrow> objptr \<Rightarrow> history
     \<Rightarrow> (fault + objptr) \<times> history" where
  "Connect E T spec streamer adminHandler adminContext serverAdapter connContext h =
     (case strlen spec of
        None \<Rightarrow> (Inl InvalidRead, h)
      | Some n \<Rightarrow>
          (case select_thread E T spec n h of
             (Inl f, h1) \<Rightarrow> (Inl f, h1)
           | (Inr t, h1) \<Rightarrow>
               (Inr (ret_ptr E h1
                       (T_Connect t spec streamer adminHandler adminContext serverAdapter connContext)),
                h1 @ [T_Connect t spec streamer adminHandler adminContext serverAdapter connContext])))"

subsection \<open>Operations on every worker\<close>

fun GetNumIOComponents_loop :: "env \<Rightarrow> thread_ptr list \<Rightarrow> u32 \<Rightarrow> history \<Rightarrow> u32 \<times> history" where
  "GetNumIOComponents_loop E [] result h = (result, h)"
| "GetNumIOComponents_loop E (thread # rest) result h =
     GetNumIOComponents_loop E rest
       (result + ret_u32 E h (T_GetNumIOComponents thread))
       (h @ [T_GetNumIOComponents thread])"

definition GetNumIOComponents :: "env \<Rightarrow> FNET_Transport \<Rightarrow> history \<Rightarrow> u32 \<times> history" where
  "GetNumIOComponents E T h = GetNumIOComponents_loop E (threads T) 0 h"

fun ShutDown_loop :: "thread_ptr list \<Rightarrow> bool \<Rightarrow> history \<Rightarrow> history" where
  "ShutDown_loop [] waitFinished h = h"
| "ShutDown_loop (thread # rest) waitFinished h =
     ShutDown_loop rest waitFinished (h @ [T_ShutDown thread waitFinished])"

definition ShutDown :: "FNET_Transport \<Rightarrow> bool \<Rightarrow> history \<Rightarrow> history" where
  "ShutDown T waitFinished h = ShutDown_loop (threads T) waitFinished h"

fun WaitFinished_loop :: "thread_ptr list \<Rightarrow> history \<Rightarrow> history" where
  "WaitFinished_loop [] h = h"
| "WaitFinished_loop (thread # rest) h = WaitFinished_loop rest (h @ [T_WaitFinished thread])"

definition WaitFinished :: "FNET_Transport \<Rightarrow> history \<Rightarrow> history" where
  "WaitFinished T h = WaitFinished_loop (threads T) h"

text \<open>\<open>result &= thread->Start(pool)\<close>: the call is made whatever \<open>result\<close> holds.\<close>

fun Start_loop :: "env \<Rightarrow> thread_ptr list \<Rightarrow> objptr \<Rightarrow> bool \<Rightarrow> history \<Rightarrow> bool \<times> history" where
  "Start_loop E [] pool result h = (result, h)"
| "Start_loop E (thread # rest) pool result h =
     (let started = ret_bool E h (T_Start thread pool)
      in Start_loop E rest pool (result \<and> started) (h @ [T_Start thread pool]))"

definition Start :: "env \<Rightarrow> FNET_Transport \<Rightarrow> objptr \<Rightarrow> history \<Rightarrow> bool \<times> history" where
  "Start E T pool h = Start_loop E (threads T) pool True h"

subsection \<open>Work that needs no endpoint\<close>

definition GetScheduler :: "env \<Rightarrow> FNET_Transport \<Rightarrow> history \<Rightarrow> (fault + objptr) \<times> history" where
  "GetScheduler E T h =
     (case select_thread E T nullptr 0 h of
        (Inl f, h1) \<Rightarrow> (Inl f, h1)
      | (Inr t, h1) \<Rightarrow> (Inr (ret_ptr E h1 (T_GetScheduler t)), h1 @ [T_GetScheduler t]))"

definition execute :: "env \<Rightarrow> FNET_Transport \<Rightarrow> objptr \<Rightarrow> history \<Rightarrow> (fault + bool) \<times> history" where
  "execute E T exe h =
     (case select_thread E T nullptr 0 h of
        (Inl f, h1) \<Rightarrow> (Inl f, h1)
      | (Inr t, h1) \<Rightarrow> (Inr (ret_bool E h1 (T_execute t exe)), h1 @ [T_execute t exe]))"

subsection \<open>I/O components: routed by owner\<close>

definition Add :: "FNET_Transport \<Rightarrow> FNET_IOComponent \<Rightarrow> bool \<Rightarrow> history \<Rightarrow> history" where
  "Add T component needRef h = h @ [T_Add (Owner component) component needRef]"

definition EnableRead :: "FNET_Transport \<Rightarrow> FNET_IOComponent \<Rightarrow> bool \<Rightarrow> history \<Rightarrow> history" where
  "EnableRead T component needRef h = h @ [T_EnableRead (Owner component) component needRef]"

definition DisableRead :: "FNET_Transport \<Rightarrow> FNET_IOComponent \<Rightarrow> bool \<Rightarrow> history \<Rightarrow> history" where
  "DisableRead T component needRef h = h @ [T_DisableRead (Owner component) component needRef]"

definition EnableWrite :: "FNET_Transport \<Rightarrow> FNET_IOComponent \<Rightarrow> bool \<Rightarrow> history \<Rightarrow> history" where
  "EnableWrite T component needRef h = h @ [T_EnableWrite (Owner component) component needRef]"

definition DisableWrite :: "FNET_Transport \<Rightarrow> FNET_IOComponent \<Rightarrow> bool \<Rightarrow> history \<Rightarrow> history" where
  "DisableWrite T component needRef h = h @ [T_DisableWrite (Owner component) component needRef]"

definition Close :: "FNET_Transport \<Rightarrow> FNET_IOComponent \<Rightarrow> bool \<Rightarrow> history \<Rightarrow> history" where
  "Close T component needRef h = h @ [T_Close (Owner component) component needRef]"

subsection \<open>Single-thread mode\<close>

definition GetTimeSampler :: "env \<Rightarrow> FNET_Transport \<Rightarrow> history \<Rightarrow> (fault + objptr) \<times> history" where
  "GetTimeSampler E T h =
     (if \<not> (length (threads T) = 1) then (Inl AssertionFailed, h)
      else (Inr (ret_ptr E h (T_GetTimeSampler (threads T ! 0))),
            h @ [T_GetTimeSampler (threads T ! 0)]))"

definition InitEventLoop :: "env \<Rightarrow> FNET_Transport \<Rightarrow> history \<Rightarrow> (fault + bool) \<times> history" where
  "InitEventLoop E T h =
     (if \<not> (length (threads T) = 1) then (Inl AssertionFailed, h)
      else (Inr (ret_bool E h (T_InitEventLoop (threads T ! 0))),
            h @ [T_InitEventLoop (threads T ! 0)]))"

definition EventLoopIteration :: "env \<Rightarrow> FNET_Transport \<Rightarrow> history \<Rightarrow> (fault + bool) \<times> history" where
  "EventLoopIteration E T h =
     (if \<not> (length (threads T) = 1) then (Inl AssertionFailed, h)
      else (Inr (ret_bool E h (T_EventLoopIteration (threads T ! 0))),
            h @ [T_EventLoopIteration (threads T ! 0)]))"

definition Main :: "FNET_Transport \<Rightarrow> history \<Rightarrow> (fault + unit) \<times> history" where
  "Main T h =
     (if \<not> (length (threads T) = 1) then (Inl AssertionFailed, h)
      else (Inr (), h @ [T_Main (threads T ! 0)]))"

subsection \<open>Reading a history\<close>

text \<open>The calls made between a history and a later one, and the worker a call goes to.\<close>

definition calls_since :: "history \<Rightarrow> history \<Rightarrow> call list" where
  "calls_since h h1 = drop (length h) h1"

fun callee :: "call \<Rightarrow> thread_ptr option" where
  "callee Clock_now = None"
| "callee New_TransportThread = None"
| "callee (Resolver_wait_for_pending_resolves r) = None"
| "callee (T_Listen t spec streamer serverAdapter) = Some t"
| "callee (T_Connect t spec streamer adminHandler adminContext serverAdapter connContext) = Some t"
| "callee (T_GetNumIOComponents t) = Some t"
| "callee (T_GetScheduler t) = Some t"
| "callee (T_execute t exe) = Some t"
| "callee (T_ShutDown t waitFinished) = Some t"
| "callee (T_WaitFinished t) = Some t"
| "callee (T_Start t pool) = Some t"
| "callee (T_Add t component needRef) = Some t"
| "callee (T_EnableRead t component needRef) = Some t"
| "callee (T_DisableRead t component needRef) = Some t"
| "callee (T_EnableWrite t component needRef) = Some t"
| "callee (T_DisableWrite t component needRef) = Some t"
| "callee (T_Close t component needRef) = Some t"
| "callee (T_GetTimeSampler t) = Some t"
| "callee (T_InitEventLoop t) = Some t"
| "callee (T_EventLoopIteration t) = Some t"
| "callee (T_Main t) = Some t"

subsection \<open>The selector as the specification words it\<close>

text \<open>
  A 64-bit hash of the key; a second hash over a structure of a per-call identity value,
  a timestamp and the first hash; the second hash modulo \<open>N\<close>.
\<close>

definition spec_select :: "(byte list \<Rightarrow> u64) \<Rightarrow> nat \<Rightarrow> u64 \<Rightarrow> u64 \<Rightarrow> byte list \<Rightarrow> nat" where
  "spec_select hash N identity timestamp key_bytes =
     (let first_hash = hash key_bytes;
          second_hash = hash (le64_bytes identity @ le64_bytes timestamp @ le64_bytes first_hash)
      in unat second_hash mod N)"

subsection \<open>XXH64\<close>

text \<open>
  Modelled from the spec: the code of \<open>XXH64\<close> (vespalib/xxhash/xxhash.h) is missing;
  the specification calls it no more than a 64-bit hash of its input bytes. The
  theorems that hold for every hash take it from the environment. Where a value of the
  hash itself decides, \<open>XXH64_impl\<close> is used: the XXH64 algorithm of the xxHash library
  (seeded accumulators over 32-byte stripes, then 8-, 4- and 1-byte steps, then the final
  mix), pinned below by digests of that library.
\<close>

definition PRIME64_1 :: u64 where "PRIME64_1 = 11400714785074694791"
definition PRIME64_2 :: u64 where "PRIME64_2 = 14029467366897019727"
definition PRIME64_3 :: u64 where "PRIME64_3 = 1609587929392839161"
definition PRIME64_4 :: u64 where "PRIME64_4 = 9650029242287828579"
definition PRIME64_5 :: u64 where "PRIME64_5 = 2870177450012600261"

definition XXH_rotl64 :: "u64 \<Rightarrow> nat \<Rightarrow> u64" where
  "XXH_rotl64 x r = push_bit r x OR drop_bit (64 - r) x"

definition XXH_readLE64 :: "byte list \<Rightarrow> u64" where
  "XXH_readLE64 p = foldr (\<lambda>b acc. ucast b OR push_bit 8 acc) (take 8 p) 0"

definition XXH_readLE32 :: "byte list \<Rightarrow> u64" where
  "XXH_readLE32 p = foldr (\<lambda>b acc. ucast b OR push_bit 8 acc) (take 4 p) 0"

definition XXH64_round :: "u64 \<Rightarrow> u64 \<Rightarrow> u64" where
  "XXH64_round acc input = XXH_rotl64 (acc + input * PRIME64_2) 31 * PRIME64_1"

definition XXH64_mergeRound :: "u64 \<Rightarrow> u64 \<Rightarrow> u64" where
  "XXH64_mergeRound acc val = (acc XOR XXH64_round 0 val) * PRIME64_1 + PRIME64_4"

fun XXH64_stripes ::
  "u64 \<Rightarrow> u64 \<Rightarrow> u64 \<Rightarrow> u64 \<Rightarrow> byte list \<Rightarrow> (u64 \<times> u64 \<times> u64 \<times> u64) \<times> byte list" where
  "XXH64_stripes v1 v2 v3 v4 p =
     (if 32 \<le> length p
      then XXH64_stripes (XXH64_round v1 (XXH_readLE64 p))
                         (XXH64_round v2 (XXH_readLE64 (drop 8 p)))
                         (XXH64_round v3 (XXH_readLE64 (drop 16 p)))
                         (XXH64_round v4 (XXH_readLE64 (drop 24 p)))
                         (drop 32 p)
      else ((v1, v2, v3, v4), p))"

declare XXH64_stripes.simps [simp del]

fun XXH64_tail8 :: "u64 \<Rightarrow> byte list \<Rightarrow> u64 \<times> byte list" where
  "XXH64_tail8 h64 p =
     (if 8 \<le> length p
      then XXH64_tail8
             (XXH_rotl64 (h64 XOR XXH64_round 0 (XXH_readLE64 p)) 27 * PRIME64_1 + PRIME64_4)
             (drop 8 p)
      else (h64, p))"

declare XXH64_tail8.simps [simp del]

definition XXH64_tail4 :: "u64 \<Rightarrow> byte list \<Rightarrow> u64 \<times> byte list" where
  "XXH64_tail4 h64 p =
     (if 4 \<le> length p
      then (XXH_rotl64 (h64 XOR XXH_readLE32 p * PRIME64_1) 23 * PRIME64_2 + PRIME64_3, drop 4 p)
      else (h64, p))"

fun XXH64_tail1 :: "u64 \<Rightarrow> byte list \<Rightarrow> u64" where
  "XXH64_tail1 h64 [] = h64"
| "XXH64_tail1 h64 (b # p) =
     XXH64_tail1 (XXH_rotl64 (h64 XOR ucast b * PRIME64_5) 11 * PRIME64_1) p"

definition XXH64_avalanche :: "u64 \<Rightarrow> u64" where
  "XXH64_avalanche h0 =
     (let h1 = (h0 XOR drop_bit 33 h0) * PRIME64_2;
          h2 = (h1 XOR drop_bit 29 h1) * PRIME64_3
      in h2 XOR drop_bit 32 h2)"

definition XXH64_impl :: "byte list \<Rightarrow> u64 \<Rightarrow> u64" where
  "XXH64_impl input seed =
     (let (h64, p) =
            (if 32 \<le> length input
             then (case XXH64_stripes (seed + PRIME64_1 + PRIME64_2) (seed + PRIME64_2)
                          seed (seed - PRIME64_1) input of
                     ((v1, v2, v3, v4), p) \<Rightarrow>
                       (XXH64_mergeRound (XXH64_mergeRound (XXH64_mergeRound (XXH64_mergeRound
                          (XXH_rotl64 v1 1 + XXH_rotl64 v2 7 + XXH_rotl64 v3 12 + XXH_rotl64 v4 18)
                          v1) v2) v3) v4, p))
             else (seed + PRIME64_5, input));
          (h64a, p1) = XXH64_tail8 (h64 + of_nat (length input)) p;
          (h64b, p2) = XXH64_tail4 h64a p1
      in XXH64_avalanche (XXH64_tail1 h64b p2))"

text \<open>The bytes of an ASCII string.\<close>

definition bytes_of :: "string \<Rightarrow> byte list" where
  "bytes_of s = map (\<lambda>c. of_nat (of_char c)) s"

subsection \<open>A test bench\<close>

text \<open>
  An environment for running the facade on concrete inputs: the hash is \<open>XXH64_impl\<close>,
  the local \<open>hash_state\<close> lies at one fixed stack address, the clock advances by 1000 ticks
  per recorded call, the \<open>n\<close>-th created worker gets the address \<open>100 + n\<close>, worker 101
  fails to start, a worker reports as many I/O components as its address says, and
  \<open>Listen\<close> on an empty spec yields a null connector.
\<close>

definition test_env :: env where
  "test_env =
     \<lparr>XXH64 = XXH64_impl,
      stack_addr = (\<lambda>h. 0x7FFD3C5A1E40),
      ret_u64 = (\<lambda>h c. 1700000000000000000 + 1000 * of_nat (length h)),
      ret_u32 = (\<lambda>h c. case c of T_GetNumIOComponents t \<Rightarrow> of_nat t | _ \<Rightarrow> 0),
      ret_bool = (\<lambda>h c. case c of T_Start t pool \<Rightarrow> t \<noteq> 101 | _ \<Rightarrow> True),
      ret_ptr = (\<lambda>h c. case c of
                   T_Listen t spec streamer serverAdapter \<Rightarrow>
                     (if strlen spec = Some 0 then None else Some (7000 + t))
                 | _ \<Rightarrow> None),
      ret_thread = (\<lambda>h c. 100 + length h)\<rparr>"

definition one_worker :: FNET_Transport where
  "one_worker = \<lparr>async_resolver = 1, threads = [100]\<rparr>"

definition two_workers :: FNET_Transport where
  "two_workers = \<lparr>async_resolver = 1, threads = [100, 101]\<rparr>"

definition three_workers :: FNET_Transport where
  "three_workers = \<lparr>async_resolver = 1, threads = [100, 101, 102]\<rparr>"

definition localhost_spec :: cptr where
  "localhost_spec = Ptr (bytes_of ''tcp/localhost:19101'' @ [0])"

section \<open>Properties\<close>

subsection \<open>XXH64 against digests of the library\<close>

lemma XXH64_impl_empty: "XXH64_impl [] 0 = 0xEF46DB3751D8E999"
  by code_simp

lemma XXH64_impl_abc: "XXH64_impl (bytes_of ''abc'') 0 = 0x44BC2CF5AD770999"
  by code_simp

lemma XXH64_impl_seeded: "XXH64_impl (bytes_of ''xxhash'') 20141025 = 0xB559B98D844E0635"
  by code_simp

lemma XXH64_impl_24_bytes: "XXH64_impl (bytes_of ''0123456789abcdefghijklmn'') 0 = 0xC511307085F8FABD"
  by code_simp

lemma XXH64_impl_39_bytes:
  "XXH64_impl (bytes_of ''Nobody inspects the spammish repetition'') 0 = 0xFBCEA83C8A378BF1"
  by code_simp

subsection \<open>Helper facts\<close>

lemma read_bytes_sentinel: "read_bytes nullptr 0 = Some []"
  by simp

lemma read_bytes_prefix: "read_bytes (Ptr (k @ r)) (length k) = Some k"
  by simp

lemma select_thread_unfold:
  assumes "read_bytes key key_len = Some bs" and "1 \<le> length (threads T)"
  shows "select_thread E T key key_len h =
    (Inr (threads T !
       (unat (XXH64 E (object_bytes \<lparr>self = stack_addr E h, now = ret_u64 E h Clock_now,
                key_hash = XXH64 E bs 0\<rparr>) 0) mod length (threads T))),
     h @ [Clock_now])"
  using assms by (cases "threads T") (simp_all add: select_thread_def HashState_ctor_def Let_def)

lemma select_thread_history: "snd (select_thread E T key key_len h) = h @ [Clock_now]"
  by (simp add: select_thread_def HashState_ctor_def Let_def split: option.splits)

lemma select_thread_index:
  assumes "read_bytes key key_len = Some bs" and "1 \<le> length (threads T)"
  shows "\<exists>i. i < length (threads T) \<and> fst (select_thread E T key key_len h) = Inr (threads T ! i)"
proof -
  let ?i = "unat (XXH64 E (object_bytes \<lparr>self = stack_addr E h, now = ret_u64 E h Clock_now,
                key_hash = XXH64 E bs 0\<rparr>) 0) mod length (threads T)"
  have "?i < length (threads T)"
    using assms(2) by (intro mod_less_divisor) linarith
  moreover have "fst (select_thread E T key key_len h) = Inr (threads T ! ?i)"
    by (simp add: select_thread_unfold [OF assms])
  ultimately show ?thesis by blast
qed

lemma strlen_Some:
  assumes "strlen spec = Some n"
  shows "\<exists>bs r. spec = Ptr (bs @ 0 # r) \<and> 0 \<notin> set bs \<and> length bs = n"
proof (cases spec)
  case nullptr
  with assms show ?thesis by simp
next
  case (Ptr buf)
  with assms have mem: "0 \<in> set buf" and n: "n = length (takeWhile (\<lambda>b. b \<noteq> 0) buf)"
    by (auto split: if_splits)
  let ?bs = "takeWhile (\<lambda>b. b \<noteq> 0) buf"
  from mem have "dropWhile (\<lambda>b. b \<noteq> 0) buf \<noteq> []"
    by simp
  then obtain x r where d: "dropWhile (\<lambda>b. b \<noteq> 0) buf = x # r"
    by (cases "dropWhile (\<lambda>b. b \<noteq> 0) buf") auto
  then have "x = 0"
    using hd_dropWhile [of "\<lambda>b. b \<noteq> 0" buf] by auto
  with d have "buf = ?bs @ 0 # r"
    using takeWhile_dropWhile_id [of "\<lambda>b. b \<noteq> 0" buf] by simp
  moreover have "0 \<notin> set ?bs"
    using set_takeWhileD by fastforce
  ultimately show ?thesis using Ptr n by blast
qed

lemma strlen_prefix:
  assumes "0 \<notin> set k"
  shows "strlen (Ptr (k @ 0 # r)) = Some (length k)"
proof -
  have "takeWhile (\<lambda>b. b \<noteq> 0) (k @ 0 # r) = k"
    using assms by (induction k) auto
  then show ?thesis by simp
qed

lemma Listen_unfold:
  assumes "strlen spec = Some n" and "select_thread E T spec n h = (Inr t, h1)"
  shows "Listen E T spec streamer serverAdapter h =
           (Inr (ret_ptr E h1 (T_Listen t spec streamer serverAdapter)),
            h1 @ [T_Listen t spec streamer serverAdapter])"
  using assms by (simp add: Listen_def)

lemma Connect_unfold:
  assumes "strlen spec = Some n" and "select_thread E T spec n h = (Inr t, h1)"
  shows "Connect E T spec streamer adminHandler adminContext serverAdapter connContext h =
           (Inr (ret_ptr E h1
                   (T_Connect t spec streamer adminHandler adminContext serverAdapter connContext)),
            h1 @ [T_Connect t spec streamer adminHandler adminContext serverAdapter connContext])"
  using assms by (simp add: Connect_def)

text \<open>Facts about the test bench.\<close>

lemma one_worker_length: "length (threads one_worker) = 1"
  by (simp add: one_worker_def)

lemma two_workers_length: "length (threads two_workers) = 2"
  by (simp add: two_workers_def)

lemma localhost_spec_strlen: "strlen localhost_spec = Some 19"
  by (simp add: localhost_spec_def bytes_of_def)

lemma localhost_spec_key: "read_bytes localhost_spec 19 = Some (bytes_of ''tcp/localhost:19101'')"
  by (simp add: localhost_spec_def bytes_of_def)

lemma first_call_hash:
  "XXH64_impl (object_bytes \<lparr>self = 0x7FFD3C5A1E40, now = 1700000000000000000,
      key_hash = XXH64_impl (bytes_of ''tcp/localhost:19101'') 0\<rparr>) 0 = 11202602245025823319"
  by code_simp

lemma second_call_hash:
  "XXH64_impl (object_bytes \<lparr>self = 0x7FFD3C5A1E40, now = 1700000000000001000,
      key_hash = XXH64_impl (bytes_of ''tcp/localhost:19101'') 0\<rparr>) 0 = 11189394167364150952"
  by code_simp

lemma first_call_selects:
  "select_thread test_env two_workers localhost_spec 19 [] = (Inr 101, [Clock_now])"
proof -
  have idx: "unat (11202602245025823319 :: u64) mod 2 = 1" by simp
  show ?thesis
    by (simp add: select_thread_unfold [OF localhost_spec_key] two_workers_length test_env_def
          first_call_hash idx)
       (simp add: two_workers_def)
qed

lemma second_call_selects:
  "select_thread test_env two_workers localhost_spec 19 [Clock_now] =
     (Inr 100, [Clock_now, Clock_now])"
proof -
  have idx: "unat (11189394167364150952 :: u64) mod 2 = 0" by simp
  show ?thesis
    by (simp add: select_thread_unfold [OF localhost_spec_key] two_workers_length test_env_def
          second_call_hash idx)
       (simp add: two_workers_def)
qed

subsection \<open>The shard selector\<close>

text \<open>
  C1. With at least one worker, \<open>select_thread\<close> returns, for every key that can be read
  (a pointer with \<open>key_len\<close> bytes behind it) and for the sentinel key \<open>(nullptr, 0)\<close>, the
  worker at an index below the number of workers; with exactly one worker it returns
  worker 0.
\<close>

theorem select_thread_in_range:
  assumes "1 \<le> length (threads T)" and "read_bytes key key_len = Some bs"
  shows "(\<exists>i. i < length (threads T) \<and> fst (select_thread E T key key_len h) = Inr (threads T ! i))
       \<and> (\<exists>i. i < length (threads T) \<and> fst (select_thread E T nullptr 0 h) = Inr (threads T ! i))
       \<and> (length (threads T) = 1 \<longrightarrow>
            fst (select_thread E T key key_len h) = Inr (threads T ! 0)
          \<and> fst (select_thread E T nullptr 0 h) = Inr (threads T ! 0))"
proof -
  have c: "length (threads T) = 1 \<Longrightarrow> fst (select_thread E T key key_len h) = Inr (threads T ! 0)"
    by (simp add: select_thread_unfold [OF assms(2) assms(1)])
  have d: "length (threads T) = 1 \<Longrightarrow> fst (select_thread E T nullptr 0 h) = Inr (threads T ! 0)"
    by (simp add: select_thread_unfold [OF read_bytes_sentinel assms(1)])
  from select_thread_index [OF assms(2) assms(1)]
       select_thread_index [OF read_bytes_sentinel assms(1)] c d
  show ?thesis by blast
qed

theorem select_thread_in_range_witness:
  "1 \<le> length (threads two_workers)
 \<and> read_bytes localhost_spec 19 = Some (bytes_of ''tcp/localhost:19101'')
 \<and> (\<exists>i. i < length (threads two_workers)
        \<and> fst (select_thread test_env two_workers localhost_spec 19 []) = Inr (threads two_workers ! i))
 \<and> (\<exists>i. i < length (threads two_workers)
        \<and> fst (select_thread test_env two_workers nullptr 0 []) = Inr (threads two_workers ! i))
 \<and> fst (select_thread test_env one_worker localhost_spec 19 []) = Inr 100
 \<and> fst (select_thread test_env one_worker nullptr 0 []) = Inr 100"
proof -
  have two: "1 \<le> length (threads two_workers)"
    by (simp add: two_workers_length)
  have one: "1 \<le> length (threads one_worker)"
    by (simp add: one_worker_length)
  have first: "threads one_worker ! 0 = 100"
    by (simp add: one_worker_def)
  from two localhost_spec_key first one_worker_length
       select_thread_in_range [OF two localhost_spec_key, of test_env "[]"]
       select_thread_in_range [OF one localhost_spec_key, of test_env "[]"]
  show ?thesis by simp
qed

text \<open>
  C2. \<open>select_thread\<close> is the two-stage algorithm of the specification: the first hash is
  \<open>XXH64\<close> of the key bytes; the second is \<open>XXH64\<close> over the structure holding the address
  of the local \<open>hash_state\<close>, the clock value read in this call and the first hash; the
  worker is the one at the second hash modulo the number of workers. The clock is read
  once, and nothing else is called.
\<close>

theorem select_thread_refines_spec:
  assumes "1 \<le> length (threads T)" and "read_bytes key key_len = Some bs"
  shows "select_thread E T key key_len h =
           (Inr (threads T !
              spec_select (\<lambda>d. XXH64 E d 0) (length (threads T))
                (stack_addr E h) (ret_u64 E h Clock_now) bs),
            h @ [Clock_now])"
  by (simp add: select_thread_unfold [OF assms(2) assms(1)] spec_select_def object_bytes_def Let_def)

theorem select_thread_refines_spec_witness:
  "1 \<le> length (threads two_workers)
 \<and> read_bytes localhost_spec 19 = Some (bytes_of ''tcp/localhost:19101'')
 \<and> select_thread test_env two_workers localhost_spec 19 [] =
     (Inr (threads two_workers !
        spec_select (\<lambda>d. XXH64 test_env d 0) (length (threads two_workers))
          (stack_addr test_env []) (ret_u64 test_env [] Clock_now)
          (bytes_of ''tcp/localhost:19101'')),
      [] @ [Clock_now])"
proof -
  have two: "1 \<le> length (threads two_workers)"
    by (simp add: two_workers_length)
  from two localhost_spec_key
       select_thread_refines_spec [OF two localhost_spec_key, of test_env "[]"]
  show ?thesis by (intro conjI)
qed

text \<open>
  C3. The selected worker is not a function of the key bytes: with XXH64 as the hash
  and two workers, two successive calls of \<open>select_thread\<close> with the same key, the local
  structure at the same address both times and the clock 1000 ticks further at the second
  call, return worker 101 and then worker 100.
\<close>

theorem select_thread_depends_on_salt:
  "XXH64 test_env = XXH64_impl
 \<and> 1 < length (threads two_workers)
 \<and> stack_addr test_env [] = stack_addr test_env [Clock_now]
 \<and> ret_u64 test_env [] Clock_now = 1700000000000000000
 \<and> ret_u64 test_env [Clock_now] Clock_now = 1700000000000001000
 \<and> select_thread test_env two_workers localhost_spec 19 [] = (Inr 101, [Clock_now])
 \<and> select_thread test_env two_workers localhost_spec 19 [Clock_now] =
     (Inr 100, [Clock_now, Clock_now])"
proof -
  have "XXH64 test_env = XXH64_impl"
    and "stack_addr test_env [] = stack_addr test_env [Clock_now]"
    and "ret_u64 test_env [] Clock_now = 1700000000000000000"
    and "ret_u64 test_env [Clock_now] Clock_now = 1700000000000001000"
    by (simp_all add: test_env_def)
  moreover have "1 < length (threads two_workers)"
    by (simp add: two_workers_length)
  ultimately show ?thesis
    using first_call_selects second_call_selects by (intro conjI)
qed

text \<open>\<open>GetScheduler\<close> and \<open>execute\<close> go to the worker selected for the sentinel key.\<close>

lemma GetScheduler_execute_sentinel:
  assumes "select_thread E T nullptr 0 h = (Inr t, h1)"
  shows "GetScheduler E T h = (Inr (ret_ptr E h1 (T_GetScheduler t)), h1 @ [T_GetScheduler t])"
    and "execute E T exe h = (Inr (ret_bool E h1 (T_execute t exe)), h1 @ [T_execute t exe])"
  using assms by (simp_all add: GetScheduler_def execute_def)

subsection \<open>Listen and Connect\<close>

text \<open>
  C4. For a NUL-terminated spec and at least one worker, \<open>Listen\<close> and \<open>Connect\<close> select
  the worker with the key made of the spec's bytes before the terminator (the \<open>strlen\<close>
  bytes), call that worker's \<open>Listen\<close> or \<open>Connect\<close> with the spec pointer and all other
  arguments as received, and return what the worker answers, a null pointer included.
\<close>

theorem Listen_Connect_forward:
  assumes "strlen spec = Some n" and "1 \<le> length (threads T)"
  shows "\<exists>key_bytes rest t.
           spec = Ptr (key_bytes @ 0 # rest) \<and> 0 \<notin> set key_bytes \<and> length key_bytes = n
         \<and> read_bytes spec n = Some key_bytes
         \<and> select_thread E T spec n h = (Inr t, h @ [Clock_now])
         \<and> Listen E T spec streamer serverAdapter h =
             (Inr (ret_ptr E (h @ [Clock_now]) (T_Listen t spec streamer serverAdapter)),
              h @ [Clock_now, T_Listen t spec streamer serverAdapter])
         \<and> Connect E T spec streamer adminHandler adminContext serverAdapter connContext h =
             (Inr (ret_ptr E (h @ [Clock_now])
                     (T_Connect t spec streamer adminHandler adminContext serverAdapter connContext)),
              h @ [Clock_now,
                   T_Connect t spec streamer adminHandler adminContext serverAdapter connContext])"
proof -
  from strlen_Some [OF assms(1)] obtain bs r
    where spec: "spec = Ptr (bs @ 0 # r)" and nz: "0 \<notin> set bs" and len: "length bs = n"
    by blast
  have rb: "read_bytes spec n = Some bs"
    using spec len by auto
  from select_thread_unfold [OF rb assms(2)] obtain t
    where sel: "select_thread E T spec n h = (Inr t, h @ [Clock_now])"
    by blast
  note L = Listen_unfold [OF assms(1) sel]
  note C = Connect_unfold [OF assms(1) sel]
  show ?thesis
    using spec nz len rb sel L C by (intro exI [of _ bs] exI [of _ r] exI [of _ t]) simp
qed

theorem Listen_Connect_forward_witness:
  "strlen localhost_spec = Some 19
 \<and> 1 \<le> length (threads two_workers)
 \<and> Listen test_env two_workers localhost_spec (Some 5) (Some 6) [] =
     (Inr (Some 7101), [Clock_now, T_Listen 101 localhost_spec (Some 5) (Some 6)])
 \<and> Connect test_env two_workers localhost_spec (Some 5) (Some 7) (Some 8) (Some 6) (Some 9) [] =
     (Inr None, [Clock_now, T_Connect 101 localhost_spec (Some 5) (Some 7) (Some 8) (Some 6) (Some 9)])
 \<and> fst (Listen test_env two_workers (Ptr [0]) (Some 5) (Some 6) []) = Inr None"
proof -
  have two: "1 \<le> length (threads two_workers)"
    by (simp add: two_workers_length)
  have empty: "strlen (Ptr [0]) = Some 0"
    by simp
  have answer: "ret_ptr test_env [Clock_now] (T_Listen 101 localhost_spec (Some 5) (Some 6)) = Some 7101"
    by (simp add: test_env_def localhost_spec_strlen)
  have refusal: "ret_ptr test_env h1 (T_Listen t (Ptr [0]) (Some 5) (Some 6)) = None" for h1 t
    by (simp add: test_env_def)
  have none: "ret_ptr test_env [Clock_now]
      (T_Connect 101 localhost_spec (Some 5) (Some 7) (Some 8) (Some 6) (Some 9)) = None"
    by (simp add: test_env_def)
  from Listen_Connect_forward [OF localhost_spec_strlen two,
         of test_env "[]" "Some 5" "Some 6" "Some 7" "Some 8" "Some 9"]
  have here: "Listen test_env two_workers localhost_spec (Some 5) (Some 6) [] =
       (Inr (Some 7101), [Clock_now, T_Listen 101 localhost_spec (Some 5) (Some 6)])
     \<and> Connect test_env two_workers localhost_spec (Some 5) (Some 7) (Some 8) (Some 6) (Some 9) [] =
       (Inr None, [Clock_now, T_Connect 101 localhost_spec (Some 5) (Some 7) (Some 8) (Some 6) (Some 9)])"
    by (auto simp: first_call_selects answer none)
  from Listen_Connect_forward [OF empty two, of test_env "[]" "Some 5" "Some 6" None None None]
  obtain t where "Listen test_env two_workers (Ptr [0]) (Some 5) (Some 6) [] =
       (Inr None, [Clock_now, T_Listen t (Ptr [0]) (Some 5) (Some 6)])"
    by (auto simp: refusal)
  then have "fst (Listen test_env two_workers (Ptr [0]) (Some 5) (Some 6) []) = Inr None"
    by simp
  with localhost_spec_strlen two here show ?thesis by (intro conjI) simp_all
qed

text \<open>
  C10. The shard key of \<open>Listen\<close> and \<open>Connect\<close> is the spec up to, and without, its
  first NUL byte: two buffers that agree up to that byte have the same \<open>strlen\<close>, give
  \<open>select_thread\<close> the same key bytes and (in the same environment, after the same
  history) select the same worker, while the worker is handed each buffer's own pointer.
\<close>

theorem shard_key_stops_at_first_NUL:
  assumes "0 \<notin> set k" and "1 \<le> length (threads T)"
  shows "strlen (Ptr (k @ 0 # r)) = Some (length k)
       \<and> strlen (Ptr (k @ 0 # r')) = Some (length k)
       \<and> read_bytes (Ptr (k @ 0 # r)) (length k) = Some k
       \<and> read_bytes (Ptr (k @ 0 # r')) (length k) = Some k
       \<and> (\<exists>t. select_thread E T (Ptr (k @ 0 # r)) (length k) h = (Inr t, h @ [Clock_now])
            \<and> select_thread E T (Ptr (k @ 0 # r')) (length k) h = (Inr t, h @ [Clock_now])
            \<and> snd (Listen E T (Ptr (k @ 0 # r)) streamer serverAdapter h) =
                h @ [Clock_now, T_Listen t (Ptr (k @ 0 # r)) streamer serverAdapter]
            \<and> snd (Listen E T (Ptr (k @ 0 # r')) streamer serverAdapter h) =
                h @ [Clock_now, T_Listen t (Ptr (k @ 0 # r')) streamer serverAdapter]
            \<and> snd (Connect E T (Ptr (k @ 0 # r)) streamer adminHandler adminContext
                      serverAdapter connContext h) =
                h @ [Clock_now, T_Connect t (Ptr (k @ 0 # r)) streamer adminHandler adminContext
                                  serverAdapter connContext]
            \<and> snd (Connect E T (Ptr (k @ 0 # r')) streamer adminHandler adminContext
                      serverAdapter connContext h) =
                h @ [Clock_now, T_Connect t (Ptr (k @ 0 # r')) streamer adminHandler adminContext
                                  serverAdapter connContext])"
proof -
  let ?s = "Ptr (k @ 0 # r)" and ?s' = "Ptr (k @ 0 # r')"
  have sl: "strlen ?s = Some (length k)" and sl': "strlen ?s' = Some (length k)"
    using assms(1) by (rule strlen_prefix)+
  have rb: "read_bytes ?s (length k) = Some k" and rb': "read_bytes ?s' (length k) = Some k"
    by (rule read_bytes_prefix)+
  from select_thread_unfold [OF rb assms(2), of E h] obtain t
    where sel: "select_thread E T ?s (length k) h = (Inr t, h @ [Clock_now])"
    by blast
  have sel': "select_thread E T ?s' (length k) h = (Inr t, h @ [Clock_now])"
    using sel
    unfolding select_thread_unfold [OF rb assms(2)] select_thread_unfold [OF rb' assms(2)] .
  show ?thesis
    using sl sl' rb rb' sel sel'
      Listen_unfold [OF sl sel] Listen_unfold [OF sl' sel']
      Connect_unfold [OF sl sel] Connect_unfold [OF sl' sel']
    by (intro conjI exI [of _ t]) simp_all
qed

theorem shard_key_stops_at_first_NUL_witness:
  "0 \<notin> set (bytes_of ''tcp/a'')
 \<and> 1 \<le> length (threads two_workers)
 \<and> strlen (Ptr (bytes_of ''tcp/a'' @ 0 # bytes_of ''x'')) = Some 5
 \<and> strlen (Ptr (bytes_of ''tcp/a'' @ 0 # bytes_of ''yy'')) = Some 5
 \<and> (\<exists>t. snd (Listen test_env two_workers (Ptr (bytes_of ''tcp/a'' @ 0 # bytes_of ''x''))
                (Some 5) (Some 6) []) =
            [Clock_now, T_Listen t (Ptr (bytes_of ''tcp/a'' @ 0 # bytes_of ''x'')) (Some 5) (Some 6)]
        \<and> snd (Listen test_env two_workers (Ptr (bytes_of ''tcp/a'' @ 0 # bytes_of ''yy''))
                (Some 5) (Some 6) []) =
            [Clock_now, T_Listen t (Ptr (bytes_of ''tcp/a'' @ 0 # bytes_of ''yy'')) (Some 5) (Some 6)])"
proof -
  have nz: "0 \<notin> set (bytes_of ''tcp/a'')"
    by (simp add: bytes_of_def)
  have two: "1 \<le> length (threads two_workers)"
    by (simp add: two_workers_length)
  have len: "length (bytes_of ''tcp/a'') = 5"
    by (simp add: bytes_of_def)
  from shard_key_stops_at_first_NUL [OF nz two,
         of "bytes_of ''x''" "bytes_of ''yy''" test_env "[]" "Some 5" "Some 6" None None None]
  have "strlen (Ptr (bytes_of ''tcp/a'' @ 0 # bytes_of ''x'')) = Some 5
      \<and> strlen (Ptr (bytes_of ''tcp/a'' @ 0 # bytes_of ''yy'')) = Some 5
      \<and> (\<exists>t. snd (Listen test_env two_workers (Ptr (bytes_of ''tcp/a'' @ 0 # bytes_of ''x''))
                (Some 5) (Some 6) []) =
            [Clock_now, T_Listen t (Ptr (bytes_of ''tcp/a'' @ 0 # bytes_of ''x'')) (Some 5) (Some 6)]
        \<and> snd (Listen test_env two_workers (Ptr (bytes_of ''tcp/a'' @ 0 # bytes_of ''yy''))
                (Some 5) (Some 6) []) =
            [Clock_now, T_Listen t (Ptr (bytes_of ''tcp/a'' @ 0 # bytes_of ''yy'')) (Some 5) (Some 6)])"
    unfolding len by (elim conjE exE) (intro conjI exI, simp_all)
  with nz two show ?thesis by (intro conjI) simp_all
qed

subsection \<open>I/O components\<close>

text \<open>
  C5. \<open>Add\<close>, \<open>EnableRead\<close>, \<open>DisableRead\<close>, \<open>EnableWrite\<close>, \<open>DisableWrite\<close> and \<open>Close\<close> each make
  exactly one call: the operation of the same name on the worker that the component's
  \<open>Owner()\<close> gives, with the component and \<open>needRef\<close> as received. The clock is not read,
  which every call of \<open>select_thread\<close> does: the selector is not consulted.
\<close>

theorem io_component_ops_route_to_owner:
  "calls_since h (Add T component needRef h) = [T_Add (Owner component) component needRef]
 \<and> calls_since h (EnableRead T component needRef h) =
     [T_EnableRead (Owner component) component needRef]
 \<and> calls_since h (DisableRead T component needRef h) =
     [T_DisableRead (Owner component) component needRef]
 \<and> calls_since h (EnableWrite T component needRef h) =
     [T_EnableWrite (Owner component) component needRef]
 \<and> calls_since h (DisableWrite T component needRef h) =
     [T_DisableWrite (Owner component) component needRef]
 \<and> calls_since h (Close T component needRef h) = [T_Close (Owner component) component needRef]
 \<and> Clock_now \<notin> set (calls_since h (Add T component needRef h))
 \<and> Clock_now \<notin> set (calls_since h (EnableRead T component needRef h))
 \<and> Clock_now \<notin> set (calls_since h (DisableRead T component needRef h))
 \<and> Clock_now \<notin> set (calls_since h (EnableWrite T component needRef h))
 \<and> Clock_now \<notin> set (calls_since h (DisableWrite T component needRef h))
 \<and> Clock_now \<notin> set (calls_since h (Close T component needRef h))
 \<and> Clock_now \<in> set (calls_since h (snd (select_thread E T key key_len h)))"
  by (simp add: calls_since_def Add_def EnableRead_def DisableRead_def EnableWrite_def
        DisableWrite_def Close_def select_thread_history)

subsection \<open>Operations on every worker\<close>

lemma Start_loop_eq:
  "Start_loop E ts pool result h =
     (result \<and> (\<forall>i<length ts. ret_bool E (h @ map (\<lambda>t. T_Start t pool) (take i ts))
                                  (T_Start (ts ! i) pool)),
      h @ map (\<lambda>t. T_Start t pool) ts)"
proof (induction ts arbitrary: result h)
  case Nil
  then show ?case by simp
next
  case (Cons t ts)
  show ?case
    by (simp add: Cons.IH All_less_Suc2 Let_def)
qed

text \<open>
  C6. \<open>Start(pool)\<close> calls \<open>Start(pool)\<close> on every worker, once each and in index order,
  whatever the earlier workers answered, and returns the conjunction of the answers.
\<close>

theorem Start_every_worker:
  "snd (Start E T pool h) = h @ map (\<lambda>t. T_Start t pool) (threads T)
 \<and> fst (Start E T pool h) =
     (\<forall>i<length (threads T).
        ret_bool E (h @ map (\<lambda>t. T_Start t pool) (take i (threads T)))
          (T_Start (threads T ! i) pool))"
  by (simp add: Start_def Start_loop_eq)

theorem Start_every_worker_witness:
  "ret_bool test_env [] (T_Start 100 None)
 \<and> \<not> ret_bool test_env [T_Start 100 None] (T_Start 101 None)
 \<and> Start test_env three_workers None [] =
     (False, [T_Start 100 None, T_Start 101 None, T_Start 102 None])
 \<and> Start test_env one_worker None [] = (True, [T_Start 100 None])"
proof -
  have three: "Start test_env three_workers None [] =
      (False, [T_Start 100 None, T_Start 101 None, T_Start 102 None])"
    using Start_every_worker [of test_env three_workers None "[]"]
    by (simp add: three_workers_def test_env_def All_less_Suc prod_eq_iff)
  have one: "Start test_env one_worker None [] = (True, [T_Start 100 None])"
    using Start_every_worker [of test_env one_worker None "[]"]
    by (simp add: one_worker_def test_env_def prod_eq_iff)
  from three one show ?thesis by (simp add: test_env_def)
qed

lemma GetNumIOComponents_loop_eq:
  "GetNumIOComponents_loop E ts result h =
     (result + sum_list (map (\<lambda>i. ret_u32 E (h @ map T_GetNumIOComponents (take i ts))
                                   (T_GetNumIOComponents (ts ! i))) [0..<length ts]),
      h @ map T_GetNumIOComponents ts)"
proof (induction ts arbitrary: result h)
  case Nil
  then show ?case by simp
next
  case (Cons t ts)
  have upt: "[0..<Suc (length ts)] = 0 # map Suc [0..<length ts]"
    by (simp add: upt_conv_Cons map_Suc_upt del: upt_Suc)
  show ?case
    by (simp add: Cons.IH upt comp_def add.assoc del: upt_Suc)
qed

lemma unat_sum_list_u32: "unat (sum_list (ws :: u32 list)) = sum_list (map unat ws) mod 2 ^ 32"
proof (induction ws)
  case Nil
  then show ?case by simp
next
  case (Cons w ws)
  show ?case
    by (simp add: unat_word_ariths Cons.IH mod_add_right_eq)
qed

text \<open>
  C8. \<open>GetNumIOComponents\<close> asks every worker once, in index order, for its count and
  returns the sum of the answers. The counts and the result are \<open>uint32_t\<close>: read as
  numbers, the result is the sum of the counts modulo \<open>2^32\<close>.
\<close>

theorem GetNumIOComponents_sum:
  "GetNumIOComponents E T h =
     (sum_list (map (\<lambda>i. ret_u32 E (h @ map T_GetNumIOComponents (take i (threads T)))
                                (T_GetNumIOComponents (threads T ! i)))
                 [0..<length (threads T)]),
      h @ map T_GetNumIOComponents (threads T))
 \<and> unat (fst (GetNumIOComponents E T h)) =
     sum_list (map (\<lambda>i. unat (ret_u32 E (h @ map T_GetNumIOComponents (take i (threads T)))
                                (T_GetNumIOComponents (threads T ! i))))
                 [0..<length (threads T)]) mod 2 ^ 32"
  by (simp add: GetNumIOComponents_def GetNumIOComponents_loop_eq unat_sum_list_u32 comp_def)

theorem GetNumIOComponents_sum_witness:
  "GetNumIOComponents test_env three_workers [] =
     (303, [T_GetNumIOComponents 100, T_GetNumIOComponents 101, T_GetNumIOComponents 102])"
  using GetNumIOComponents_sum [of test_env three_workers "[]"]
  by (simp add: three_workers_def test_env_def)

subsection \<open>Assertions\<close>

lemma ctor_loop_length:
  "length (fst (ctor_loop E i num_threads ts h)) = length ts + (num_threads - i)"
proof (induction E i num_threads ts h rule: ctor_loop.induct)
  case (1 E i num_threads ts h)
  show ?case
  proof (cases "i < num_threads")
    case True
    with "1" show ?thesis by (subst ctor_loop.simps) simp
  next
    case False
    then show ?thesis by (subst ctor_loop.simps) simp
  qed
qed

text \<open>
  C7. The constructor fails its assertion when \<open>num_threads < 1\<close> and otherwise builds a
  facade with \<open>num_threads\<close> workers. \<open>GetTimeSampler\<close>, \<open>InitEventLoop\<close>,
  \<open>EventLoopIteration\<close> and \<open>Main\<close> fail their assertion, before any call, when there is
  more than one worker; with exactly one worker they call worker 0 and return its answer.
\<close>

theorem asserts_guard_construction_and_single_thread_mode:
  "(num_threads < 1 \<longrightarrow> FNET_Transport_ctor E resolver num_threads h = (Inl AssertionFailed, h))
 \<and> (1 \<le> num_threads \<longrightarrow>
       (\<exists>T1 h1. FNET_Transport_ctor E resolver num_threads h = (Inr T1, h1)
              \<and> length (threads T1) = num_threads))
 \<and> (1 < length (threads T) \<longrightarrow>
       GetTimeSampler E T h = (Inl AssertionFailed, h)
     \<and> InitEventLoop E T h = (Inl AssertionFailed, h)
     \<and> EventLoopIteration E T h = (Inl AssertionFailed, h)
     \<and> Main T h = (Inl AssertionFailed, h))
 \<and> (length (threads T) = 1 \<longrightarrow>
       GetTimeSampler E T h =
         (Inr (ret_ptr E h (T_GetTimeSampler (threads T ! 0))), h @ [T_GetTimeSampler (threads T ! 0)])
     \<and> InitEventLoop E T h =
         (Inr (ret_bool E h (T_InitEventLoop (threads T ! 0))), h @ [T_InitEventLoop (threads T ! 0)])
     \<and> EventLoopIteration E T h =
         (Inr (ret_bool E h (T_EventLoopIteration (threads T ! 0))),
          h @ [T_EventLoopIteration (threads T ! 0)])
     \<and> Main T h = (Inr (), h @ [T_Main (threads T ! 0)]))"
proof -
  obtain ts h1 where loop: "ctor_loop E 0 num_threads [] h = (ts, h1)"
    by (cases "ctor_loop E 0 num_threads [] h")
  have "length ts = num_threads"
    using ctor_loop_length [of E 0 num_threads "[]" h] by (simp add: loop)
  then have ctor_ok: "1 \<le> num_threads \<Longrightarrow>
      \<exists>T1 h1. FNET_Transport_ctor E resolver num_threads h = (Inr T1, h1)
             \<and> length (threads T1) = num_threads"
    by (simp add: FNET_Transport_ctor_def loop)
  have ctor_bad: "num_threads < 1 \<Longrightarrow>
      FNET_Transport_ctor E resolver num_threads h = (Inl AssertionFailed, h)"
    by (simp add: FNET_Transport_ctor_def)
  show ?thesis
    using ctor_ok ctor_bad
    by (simp add: GetTimeSampler_def InitEventLoop_def EventLoopIteration_def Main_def)
qed

theorem asserts_guard_construction_and_single_thread_mode_witness:
  "FNET_Transport_ctor test_env 1 0 [] = (Inl AssertionFailed, [])
 \<and> (\<exists>T1 h1. FNET_Transport_ctor test_env 1 3 [] = (Inr T1, h1) \<and> length (threads T1) = 3)
 \<and> GetTimeSampler test_env two_workers [] = (Inl AssertionFailed, [])
 \<and> InitEventLoop test_env two_workers [] = (Inl AssertionFailed, [])
 \<and> EventLoopIteration test_env two_workers [] = (Inl AssertionFailed, [])
 \<and> Main two_workers [] = (Inl AssertionFailed, [])
 \<and> GetTimeSampler test_env one_worker [] = (Inr None, [T_GetTimeSampler 100])
 \<and> InitEventLoop test_env one_worker [] = (Inr True, [T_InitEventLoop 100])
 \<and> EventLoopIteration test_env one_worker [] = (Inr True, [T_EventLoopIteration 100])
 \<and> Main one_worker [] = (Inr (), [T_Main 100])"
proof -
  have first: "threads one_worker ! 0 = 100"
    by (simp add: one_worker_def)
  have answers: "ret_ptr test_env [] (T_GetTimeSampler 100) = None"
    "ret_bool test_env [] (T_InitEventLoop 100)"
    "ret_bool test_env [] (T_EventLoopIteration 100)"
    by (simp_all add: test_env_def)
  from asserts_guard_construction_and_single_thread_mode [of 0 test_env 1 "[]" two_workers]
       asserts_guard_construction_and_single_thread_mode [of 3 test_env 1 "[]" one_worker]
  show ?thesis
    by (simp add: two_workers_length one_worker_length first answers)
qed

lemma ctor_three_workers:
  "FNET_Transport_ctor test_env 1 3 [] =
     (Inr three_workers, [New_TransportThread, New_TransportThread, New_TransportThread])"
  by (simp add: FNET_Transport_ctor_def ctor_loop.simps test_env_def three_workers_def)

subsection \<open>Shutting down\<close>

lemma ShutDown_loop_eq:
  "ShutDown_loop ts waitFinished h = h @ map (\<lambda>t. T_ShutDown t waitFinished) ts"
  by (induction ts arbitrary: h) simp_all

lemma ShutDown_every_worker:
  "ShutDown T waitFinished h = h @ map (\<lambda>t. T_ShutDown t waitFinished) (threads T)"
  by (simp add: ShutDown_def ShutDown_loop_eq)

lemma WaitFinished_loop_eq: "WaitFinished_loop ts h = h @ map T_WaitFinished ts"
  by (induction ts arbitrary: h) simp_all

lemma WaitFinished_every_worker: "WaitFinished T h = h @ map T_WaitFinished (threads T)"
  by (simp add: WaitFinished_def WaitFinished_loop_eq)

subsection \<open>Destruction\<close>

text \<open>
  C9. The destructor's body makes exactly one call, the resolver's
  \<open>wait_for_pending_resolves\<close>; it calls no worker, so neither \<open>ShutDown\<close> nor
  \<open>WaitFinished\<close> of any worker.
\<close>

theorem destructor_only_drains_resolver:
  "calls_since h (FNET_Transport_dtor T h) = [Resolver_wait_for_pending_resolves (async_resolver T)]
 \<and> map callee (calls_since h (FNET_Transport_dtor T h)) = [None]
 \<and> T_ShutDown t waitFinished \<notin> set (calls_since h (FNET_Transport_dtor T h))
 \<and> T_WaitFinished t \<notin> set (calls_since h (FNET_Transport_dtor T h))"
  by (simp add: calls_since_def FNET_Transport_dtor_def)

end
